theory Spec2Isabelle
  imports Main "HOL-Library.Word"
begin

section \<open>Data model\<close>

text \<open>
  The binding layer \<^verbatim>\<open>src/model/boost_python/experiment_list.cc\<close> exposes the class
  \<^verbatim>\<open>ExperimentList\<close> of \<^verbatim>\<open>dxtbx/model/experiment_list.h\<close>. The header is not part
  of the sources at hand, so the types it declares are modelled from the specification.
\<close>

text \<open>
  Modelled from the spec: the typed model handle \<^verbatim>\<open>boost::shared_ptr<Beam>\<close> (and the
  four other kinds). The handle is the address of the instance it points to, \<open>None\<close> being
  the null handle; two handles are the same iff the addresses are.
\<close>

type_synonym ref = "nat option"

text \<open>
  Modelled from the spec: the generic handle \<^verbatim>\<open>boost::python::object\<close> of the profile
  and imageset slots; \<open>None\<close> is Python's \<^verbatim>\<open>None\<close>, which is also the default of the
  keyword arguments of \<^verbatim>\<open>where\<close>.
\<close>

type_synonym pyobj = "nat option"

text \<open>
  Modelled from the spec: the record \<^verbatim>\<open>Experiment\<close>, one optional typed handle per
  model kind and the two generic slots.
\<close>

record Experiment =
  beam :: ref
  detector :: ref
  goniometer :: ref
  scan :: ref
  crystal :: ref
  profile :: pyobj
  imageset :: pyobj

text \<open>The list owns an ordered sequence of experiments; \<^verbatim>\<open>size()\<close> is \<^const>\<open>length\<close>.\<close>

type_synonym ExperimentList = "Experiment list"

text \<open>
  Modelled from the spec: \<^verbatim>\<open>ExperimentList::append\<close> adds the experiment at the end,
  and \<^verbatim>\<open>ExperimentList::erase\<close> removes position \<open>n\<close> and shifts the later elements
  down by one.
\<close>

definition append_el :: "ExperimentList \<Rightarrow> Experiment \<Rightarrow> ExperimentList" where
  "append_el self e = self @ [e]"

definition erase :: "ExperimentList \<Rightarrow> nat \<Rightarrow> ExperimentList" where
  "erase self n = take n self @ drop (Suc n) self"

text \<open>
  The Python values that cross the binding layer: a wrapped experiment, a Python list,
  and anything else. Tuples of call arguments are HOL lists of such values.
\<close>

datatype pyobject = PyExperiment Experiment | PyList "pyobject list" | PyOther nat

datatype error = IndexError | TypeError | ArgumentError

type_synonym pydict = "pyobject \<rightharpoonup> pyobject"

section \<open>Construction and pickling\<close>

text \<open>
  \<^verbatim>\<open>boost::python::extract<Experiment>(x)()\<close> yields the wrapped experiment and raises
  a type error on any other value.
\<close>

fun extract_Experiment :: "pyobject \<Rightarrow> error + Experiment" where
  "extract_Experiment (PyExperiment e) = Inr e"
| "extract_Experiment (PyList xs) = Inl TypeError"
| "extract_Experiment (PyOther a) = Inl TypeError"

text \<open>The loop of \<^verbatim>\<open>make_experiment_list\<close>, with its counter and the list built so far.\<close>

function make_experiment_list_loop ::
  "pyobject list \<Rightarrow> nat \<Rightarrow> ExperimentList \<Rightarrow> error + ExperimentList" where
  "make_experiment_list_loop items i experiment =
     (if i < length items then
        (case extract_Experiment (items ! i) of
           Inl err \<Rightarrow> Inl err
         | Inr e \<Rightarrow> make_experiment_list_loop items (i + 1) (append_el experiment e))
      else Inr experiment)"
  by pat_completeness auto
termination
  by (relation "measure (\<lambda>(items, i, experiment). length items - i)") auto

declare make_experiment_list_loop.simps [simp del]

text \<open>\<^verbatim>\<open>boost::python::len\<close> raises on a value that is no sequence.\<close>

fun make_experiment_list :: "pyobject \<Rightarrow> error + ExperimentList" where
  "make_experiment_list (PyList items) = make_experiment_list_loop items 0 []"
| "make_experiment_list (PyExperiment e) = Inl TypeError"
| "make_experiment_list (PyOther a) = Inl TypeError"

text \<open>
  Constructing a list from Python. \<^verbatim>\<open>class_<ExperimentList>("ExperimentList")\<close>
  registers the default constructor, which gives the empty list, and \<^verbatim>\<open>__init__\<close>
  is also registered through \<^verbatim>\<open>make_constructor(&make_experiment_list)\<close>, which
  takes one argument. Any other number of arguments matches no signature.
\<close>

fun ExperimentList_init :: "pyobject list \<Rightarrow> error + ExperimentList" where
  "ExperimentList_init [] = Inr []"
| "ExperimentList_init [items] = make_experiment_list items"
| "ExperimentList_init args = Inl ArgumentError"

text \<open>The loop of \<^verbatim>\<open>ExperimentListPickleSuite::getinitargs\<close>.\<close>

function getinitargs_loop ::
  "ExperimentList \<Rightarrow> nat \<Rightarrow> pyobject list \<Rightarrow> pyobject list" where
  "getinitargs_loop obj i experiments =
     (if i < length obj then
        getinitargs_loop obj (i + 1) (experiments @ [PyExperiment (obj ! i)])
      else experiments)"
  by pat_completeness auto
termination
  by (relation "measure (\<lambda>(obj, i, experiments). length obj - i)") auto

declare getinitargs_loop.simps [simp del]

definition getinitargs :: "ExperimentList \<Rightarrow> pyobject list" where
  "getinitargs obj = [PyList (getinitargs_loop obj 0 [])]"

section \<open>Serialisation hooks\<close>

definition to_dict :: "ExperimentList \<Rightarrow> pydict" where
  "to_dict obj = Map.empty"

definition from_dict :: "pydict \<Rightarrow> ExperimentList" where
  "from_dict obj = []"

section \<open>Indexed access\<close>

text \<open>
  Each call returns what the caller sees (an error or a value) together with the list
  after the call. \<^verbatim>\<open>raise_index_error()\<close> throws, so nothing after it runs.
\<close>

definition experiment_list_setitem ::
  "ExperimentList \<Rightarrow> nat \<Rightarrow> Experiment \<Rightarrow> (error + unit) \<times> ExperimentList" where
  "experiment_list_setitem self n item =
     (if n \<ge> length self then (Inl IndexError, self)
      else (Inr (), self[n := item]))"

definition experiment_list_getitem ::
  "ExperimentList \<Rightarrow> nat \<Rightarrow> (error + Experiment) \<times> ExperimentList" where
  "experiment_list_getitem self n =
     (if n \<ge> length self then (Inl IndexError, self)
      else (Inr (self ! n), self))"

definition experiment_list_delitem ::
  "ExperimentList \<Rightarrow> nat \<Rightarrow> (error + unit) \<times> ExperimentList" where
  "experiment_list_delitem self n =
     (if n \<ge> length self then (Inl IndexError, self)
      else (Inr (), erase self n))"

section \<open>Model kinds and slots\<close>

text \<open>
  Modelled from the spec: the five typed model kinds, for which the binding layer
  registers one overload each of \<^verbatim>\<open>__contains__\<close>, \<^verbatim>\<open>replace\<close> and
  \<^verbatim>\<open>indices\<close>, and the slot of an experiment that belongs to a kind.
\<close>

datatype kind = Beam | Detector | Goniometer | Scan | Crystal

fun slot :: "kind \<Rightarrow> Experiment \<Rightarrow> ref" where
  "slot Beam e = beam e"
| "slot Detector e = detector e"
| "slot Goniometer e = goniometer e"
| "slot Scan e = scan e"
| "slot Crystal e = crystal e"

fun set_slot :: "kind \<Rightarrow> ref \<Rightarrow> Experiment \<Rightarrow> Experiment" where
  "set_slot Beam r e = e\<lparr>beam := r\<rparr>"
| "set_slot Detector r e = e\<lparr>detector := r\<rparr>"
| "set_slot Goniometer r e = e\<lparr>goniometer := r\<rparr>"
| "set_slot Scan r e = e\<lparr>scan := r\<rparr>"
| "set_slot Crystal r e = e\<lparr>crystal := r\<rparr>"

text \<open>
  The instances live in a store from addresses to values. Two handles are value-equal
  in a store when they point to equal values; they may still be different handles.
\<close>

type_synonym 'v store = "nat \<Rightarrow> 'v"

definition value_equal :: "'v store \<Rightarrow> ref \<Rightarrow> ref \<Rightarrow> bool" where
  "value_equal st r1 r2 = (map_option st r1 = map_option st r2)"

section \<open>Identity index and replacement\<close>

text \<open>
  Modelled from the spec: \<^verbatim>\<open>ExperimentList::contains\<close> for a typed kind is true iff
  the slot of some experiment is the given handle.
\<close>

definition contains :: "kind \<Rightarrow> ExperimentList \<Rightarrow> ref \<Rightarrow> bool" where
  "contains k self R = list_ex (\<lambda>e. slot k e = R) self"

text \<open>
  Modelled from the spec: \<^verbatim>\<open>ExperimentList::indices\<close> for a typed kind is the
  ascending sequence of the positions whose slot is the given handle.
\<close>

definition indices :: "kind \<Rightarrow> ExperimentList \<Rightarrow> ref \<Rightarrow> nat list" where
  "indices k self R = filter (\<lambda>i. slot k (self ! i) = R) [0..<length self]"

text \<open>
  Modelled from the spec: \<^verbatim>\<open>ExperimentList::replace\<close> for a typed kind sets the slot
  of every experiment that holds the old handle to the new one and leaves every other
  experiment as it is.
\<close>

definition replace :: "kind \<Rightarrow> ExperimentList \<Rightarrow> ref \<Rightarrow> ref \<Rightarrow> ExperimentList" where
  "replace k self old new = map (\<lambda>e. if slot k e = old then set_slot k new e else e) self"

section \<open>Filter query\<close>

text \<open>
  The keyword arguments of \<^verbatim>\<open>where\<close> as the binding layer declares them; each
  defaults to the null handle, respectively \<^verbatim>\<open>None\<close>, which leaves the filter unset.
\<close>

record where_args =
  arg_beam :: ref
  arg_detector :: ref
  arg_goniometer :: ref
  arg_scan :: ref
  arg_crystal :: ref
  arg_profile :: pyobj
  arg_imageset :: pyobj

definition no_filters :: where_args where
  "no_filters = \<lparr>arg_beam = None, arg_detector = None, arg_goniometer = None,
                  arg_scan = None, arg_crystal = None, arg_profile = None,
                  arg_imageset = None\<rparr>"

text \<open>A call that supplies the filter of one typed kind only.\<close>

fun typed_filter :: "kind \<Rightarrow> ref \<Rightarrow> where_args" where
  "typed_filter Beam r = no_filters\<lparr>arg_beam := r\<rparr>"
| "typed_filter Detector r = no_filters\<lparr>arg_detector := r\<rparr>"
| "typed_filter Goniometer r = no_filters\<lparr>arg_goniometer := r\<rparr>"
| "typed_filter Scan r = no_filters\<lparr>arg_scan := r\<rparr>"
| "typed_filter Crystal r = no_filters\<lparr>arg_crystal := r\<rparr>"

text \<open>
  Modelled from the spec: a generic object is compared by its own equality contract
  \<open>eq\<close>, a relation on object identities that the model takes as a parameter;
  \<^verbatim>\<open>None\<close> equals only itself.
\<close>

fun obj_equal :: "(nat \<Rightarrow> nat \<Rightarrow> bool) \<Rightarrow> pyobj \<Rightarrow> pyobj \<Rightarrow> bool" where
  "obj_equal eq None None = True"
| "obj_equal eq (Some a) (Some b) = eq a b"
| "obj_equal eq x y = False"

text \<open>
  Modelled from the spec: the two generic slots, a call of \<^verbatim>\<open>where\<close> that supplies
  the filter of one of them only, and the identity index of a generic slot: the ascending
  sequence of the positions whose slot equals the given object by the equality contract.
\<close>

datatype generic_kind = Profile | Imageset

fun generic_slot :: "generic_kind \<Rightarrow> Experiment \<Rightarrow> pyobj" where
  "generic_slot Profile e = profile e"
| "generic_slot Imageset e = imageset e"

fun generic_filter :: "generic_kind \<Rightarrow> pyobj \<Rightarrow> where_args" where
  "generic_filter Profile r = no_filters\<lparr>arg_profile := r\<rparr>"
| "generic_filter Imageset r = no_filters\<lparr>arg_imageset := r\<rparr>"

definition indices_generic ::
  "(nat \<Rightarrow> nat \<Rightarrow> bool) \<Rightarrow> generic_kind \<Rightarrow> ExperimentList \<Rightarrow> pyobj \<Rightarrow> nat list" where
  "indices_generic eq g self R =
     filter (\<lambda>i. obj_equal eq (generic_slot g (self ! i)) R) [0..<length self]"

text \<open>
  Modelled from the spec: an unset filter imposes no constraint; a typed filter matches
  the slot by identity, a generic filter by the equality contract.
\<close>

definition typed_match :: "ref \<Rightarrow> ref \<Rightarrow> bool" where
  "typed_match f s = (f = None \<or> s = f)"

definition generic_match :: "(nat \<Rightarrow> nat \<Rightarrow> bool) \<Rightarrow> pyobj \<Rightarrow> pyobj \<Rightarrow> bool" where
  "generic_match eq f s = (f = None \<or> obj_equal eq s f)"

definition matches :: "(nat \<Rightarrow> nat \<Rightarrow> bool) \<Rightarrow> where_args \<Rightarrow> Experiment \<Rightarrow> bool" where
  "matches eq F e =
     (typed_match (arg_beam F) (beam e) \<and>
      typed_match (arg_detector F) (detector e) \<and>
      typed_match (arg_goniometer F) (goniometer e) \<and>
      typed_match (arg_scan F) (scan e) \<and>
      typed_match (arg_crystal F) (crystal e) \<and>
      generic_match eq (arg_profile F) (profile e) \<and>
      generic_match eq (arg_imageset F) (imageset e))"

text \<open>
  Modelled from the spec: \<^verbatim>\<open>ExperimentList::where\<close> returns the ascending sequence
  of the positions whose experiment matches every supplied filter.
\<close>

definition where_query ::
  "(nat \<Rightarrow> nat \<Rightarrow> bool) \<Rightarrow> ExperimentList \<Rightarrow> where_args \<Rightarrow> nat list" where
  "where_query eq self F = filter (\<lambda>i. matches eq F (self ! i)) [0..<length self]"

text \<open>
  Supplying the filters of two calls in one call: every argument is taken from the
  first call when it is set there and from the second otherwise. Two calls are disjoint
  when no argument is set in both.
\<close>

definition or_else :: "nat option \<Rightarrow> nat option \<Rightarrow> nat option" where
  "or_else a b = (case a of None \<Rightarrow> b | Some x \<Rightarrow> Some x)"

definition both_args :: "where_args \<Rightarrow> where_args \<Rightarrow> where_args" where
  "both_args F1 F2 =
     \<lparr>arg_beam = or_else (arg_beam F1) (arg_beam F2),
      arg_detector = or_else (arg_detector F1) (arg_detector F2),
      arg_goniometer = or_else (arg_goniometer F1) (arg_goniometer F2),
      arg_scan = or_else (arg_scan F1) (arg_scan F2),
      arg_crystal = or_else (arg_crystal F1) (arg_crystal F2),
      arg_profile = or_else (arg_profile F1) (arg_profile F2),
      arg_imageset = or_else (arg_imageset F1) (arg_imageset F2)\<rparr>"

definition disjoint_args :: "where_args \<Rightarrow> where_args \<Rightarrow> bool" where
  "disjoint_args F1 F2 =
     ((arg_beam F1 = None \<or> arg_beam F2 = None) \<and>
      (arg_detector F1 = None \<or> arg_detector F2 = None) \<and>
      (arg_goniometer F1 = None \<or> arg_goniometer F2 = None) \<and>
      (arg_scan F1 = None \<or> arg_scan F2 = None) \<and>
      (arg_crystal F1 = None \<or> arg_crystal F2 = None) \<and>
      (arg_profile F1 = None \<or> arg_profile F2 = None) \<and>
      (arg_imageset F1 = None \<or> arg_imageset F2 = None))"

section \<open>Consistency validator\<close>

text \<open>
  Modelled from the spec: \<^verbatim>\<open>ExperimentList::is_consistent\<close>. The experiments are
  partitioned into groups keyed by the identity of their imageset; an experiment with
  no imageset is a group of its own and is skipped. Within a group, every member must
  hold the same handle as the first member in each slot that the group shares. The
  detector is such a slot; which other kinds are is a domain policy, the parameter
  \<open>policy\<close>.
\<close>

definition imageset_keys :: "ExperimentList \<Rightarrow> pyobj list" where
  "imageset_keys self = remdups (filter (\<lambda>key. key \<noteq> None) (map imageset self))"

definition group :: "ExperimentList \<Rightarrow> pyobj \<Rightarrow> ExperimentList" where
  "group self key = filter (\<lambda>e. imageset e = key) self"

definition agree :: "kind list \<Rightarrow> Experiment \<Rightarrow> Experiment \<Rightarrow> bool" where
  "agree policy e1 e2 = list_all (\<lambda>k. slot k e1 = slot k e2) (Detector # policy)"

fun group_consistent :: "kind list \<Rightarrow> ExperimentList \<Rightarrow> bool" where
  "group_consistent policy [] = True"
| "group_consistent policy (e # es) = list_all (agree policy e) es"

definition is_consistent :: "kind list \<Rightarrow> ExperimentList \<Rightarrow> bool" where
  "is_consistent policy self =
     list_all (\<lambda>key. group_consistent policy (group self key)) (imageset_keys self)"

text \<open>
  The call as the caller sees it: the verdict is a boolean, there is no failure, and
  the list after the call is the list before it.
\<close>

definition is_consistent_call ::
  "kind list \<Rightarrow> ExperimentList \<Rightarrow> (error + bool) \<times> ExperimentList" where
  "is_consistent_call policy self = (Inr (is_consistent policy self), self)"

section \<open>Slicing\<close>

text \<open>
  \<^verbatim>\<open>scitbx::boost_python::adapted_slice\<close> is declared outside these sources; the
  function takes it ready-made. The record holds its three fields as the loop reads them:
  the counter \<^verbatim>\<open>i\<close> is a \<^verbatim>\<open>std::size_t\<close>, so \<^verbatim>\<open>start\<close> initialises it,
  \<^verbatim>\<open>stop\<close> is compared with it and \<^verbatim>\<open>step\<close> is added to it as unsigned 64-bit
  values, and the addition wraps around.
\<close>

record adapted_slice =
  start :: "64 word"
  stop :: "64 word"
  step :: "64 word"

text \<open>
  The loop of \<^verbatim>\<open>experiment_list_getitem_slice\<close>. Nothing in the loop makes it end
  when the step is zero, so the model is a partial function: \<open>None\<close> is a call that
  does not return.
\<close>

partial_function (option) getitem_slice_loop ::
  "ExperimentList \<Rightarrow> adapted_slice \<Rightarrow> 64 word \<Rightarrow> ExperimentList \<Rightarrow> ExperimentList option" where
  "getitem_slice_loop self as i result =
     (if i < stop as \<and> unat i < length self then
        getitem_slice_loop self as (i + step as) (append_el result (self ! unat i))
      else Some result)"

definition experiment_list_getitem_slice ::
  "ExperimentList \<Rightarrow> adapted_slice \<Rightarrow> ExperimentList option" where
  "experiment_list_getitem_slice self as = getitem_slice_loop self as (start as) []"

text \<open>
  The values the loop counter takes, in the counter's own arithmetic:
  \<^term>\<open>counter_values n i d\<close> is the first \<open>n\<close> values from \<open>i\<close> under the wrapping
  addition of \<open>d\<close>, \<^term>\<open>loop_guard self as i\<close> is the loop's condition, and
  \<^term>\<open>counter_run n self as\<close> is the longest initial run of values that pass it.
\<close>

fun counter_values :: "nat \<Rightarrow> 64 word \<Rightarrow> 64 word \<Rightarrow> 64 word list" where
  "counter_values 0 i d = []"
| "counter_values (Suc n) i d = i # counter_values n (i + d) d"

definition loop_guard :: "ExperimentList \<Rightarrow> adapted_slice \<Rightarrow> 64 word \<Rightarrow> bool" where
  "loop_guard self as i = (i < stop as \<and> unat i < length self)"

definition counter_run :: "nat \<Rightarrow> ExperimentList \<Rightarrow> adapted_slice \<Rightarrow> 64 word list" where
  "counter_run n self as =
     takeWhile (loop_guard self as) (counter_values n (start as) (step as))"

text \<open>
  The specification's description of the slice, over the integers: the positions
  \<open>start\<close>, \<open>start + step\<close>, \<open>start + 2 * step\<close>, ... are visited while the position
  is below \<open>stop\<close> and below the size. \<^term>\<open>iteration n i d\<close> is the first \<open>n\<close>
  positions, \<^term>\<open>spec_visited n sz st sp d\<close> the longest initial run of them that
  satisfies the condition, and \<^term>\<open>spec_slice n self st sp d\<close> the experiments at
  those positions.
\<close>

fun iteration :: "nat \<Rightarrow> int \<Rightarrow> int \<Rightarrow> int list" where
  "iteration 0 i d = []"
| "iteration (Suc n) i d = i # iteration n (i + d) d"

definition spec_visited :: "nat \<Rightarrow> nat \<Rightarrow> int \<Rightarrow> int \<Rightarrow> int \<Rightarrow> int list" where
  "spec_visited n sz st sp d = takeWhile (\<lambda>i. i < sp \<and> i < int sz) (iteration n st d)"

definition spec_slice :: "nat \<Rightarrow> ExperimentList \<Rightarrow> int \<Rightarrow> int \<Rightarrow> int \<Rightarrow> ExperimentList" where
  "spec_slice n self st sp d = map (\<lambda>i. self ! nat i) (spec_visited n (length self) st sp d)"

section \<open>Concrete experiments used in the examples\<close>

definition ex0 :: Experiment where
  "ex0 = \<lparr>beam = Some 1, detector = Some 10, goniometer = None, scan = None,
          crystal = None, profile = None, imageset = Some 100\<rparr>"

definition ex1 :: Experiment where
  "ex1 = \<lparr>beam = Some 2, detector = Some 11, goniometer = None, scan = None,
          crystal = None, profile = None, imageset = Some 100\<rparr>"

definition ex2 :: Experiment where
  "ex2 = \<lparr>beam = Some 3, detector = Some 10, goniometer = None, scan = None,
          crystal = None, profile = None, imageset = None\<rparr>"

text \<open>A store in which every beam has the same value.\<close>

definition beam_store :: "string store" where
  "beam_store a = ''beam''"

section \<open>Pickling reconstructs the list\<close>

lemma getinitargs_loop_eq:
  "getinitargs_loop obj i acc = acc @ map PyExperiment (drop i obj)"
proof (induction obj i acc rule: getinitargs_loop.induct)
  case (1 obj i experiments)
  show ?case
  proof (cases "i < length obj")
    case True
    then have d: "drop i obj = obj ! i # drop (Suc i) obj"
      by (simp add: Cons_nth_drop_Suc)
    from True have "getinitargs_loop obj i experiments =
        getinitargs_loop obj (i + 1) (experiments @ [PyExperiment (obj ! i)])"
      by (subst getinitargs_loop.simps) simp
    also from True have "\<dots> = (experiments @ [PyExperiment (obj ! i)])
        @ map PyExperiment (drop (i + 1) obj)"
      by (rule "1.IH")
    finally show ?thesis using d by simp
  next
    case False
    then show ?thesis by (subst getinitargs_loop.simps) simp
  qed
qed

lemma make_experiment_list_loop_eq:
  "i \<le> length es \<Longrightarrow>
   make_experiment_list_loop (map PyExperiment es) i acc = Inr (acc @ drop i es)"
proof (induction "length es - i" arbitrary: i acc)
  case 0
  then show ?case by (subst make_experiment_list_loop.simps) simp
next
  case (Suc k)
  then have lt: "i < length es" by simp
  then have d: "drop i es = es ! i # drop (Suc i) es"
    by (simp add: Cons_nth_drop_Suc)
  from lt have "make_experiment_list_loop (map PyExperiment es) i acc =
      make_experiment_list_loop (map PyExperiment es) (Suc i) (append_el acc (es ! i))"
    by (subst make_experiment_list_loop.simps) simp
  also have "\<dots> = Inr (append_el acc (es ! i) @ drop (Suc i) es)"
    using Suc.hyps(2) lt by (intro Suc.hyps(1)) simp_all
  finally show ?case using d by (simp add: append_el_def)
qed

text \<open>
  C8. For every list, \<^verbatim>\<open>getinitargs\<close> yields the one-argument tuple holding the
  experiments of the list in index order, and constructing a list from that tuple gives
  the same sequence back: the same size and the same experiment at every position.
\<close>

theorem pickle_roundtrip:
  "getinitargs L = [PyList (map PyExperiment L)]
   \<and> ExperimentList_init (getinitargs L) = Inr L"
  by (simp add: getinitargs_def getinitargs_loop_eq make_experiment_list_loop_eq)

section \<open>The serialisation hooks discard their input\<close>

text \<open>
  C10. \<^verbatim>\<open>to_dict\<close> returns the empty dictionary whatever the list holds, and
  \<^verbatim>\<open>from_dict\<close> returns the empty list whatever the dictionary holds.
\<close>

theorem dict_hooks_discard:
  "to_dict L = Map.empty \<and> from_dict d = []"
  by (simp add: to_dict_def from_dict_def)

section \<open>Bounds of indexed access\<close>

text \<open>
  C3. For every list and every index \<open>n\<close>: when \<open>n\<close> is at least the size, get, set
  and delete each fail with the index error and leave the list as it was; when \<open>n\<close> is
  below the size, each succeeds: get returns the element at \<open>n\<close>, set overwrites
  position \<open>n\<close>, delete removes it.
\<close>

theorem indexed_access_bounds:
  "(n \<ge> length L \<longrightarrow>
      experiment_list_getitem L n = (Inl IndexError, L) \<and>
      experiment_list_setitem L n e = (Inl IndexError, L) \<and>
      experiment_list_delitem L n = (Inl IndexError, L))
   \<and> (n < length L \<longrightarrow>
      experiment_list_getitem L n = (Inr (L ! n), L) \<and>
      experiment_list_setitem L n e = (Inr (), L[n := e]) \<and>
      experiment_list_delitem L n = (Inr (), take n L @ drop (Suc n) L))"
  by (simp add: experiment_list_getitem_def experiment_list_setitem_def
      experiment_list_delitem_def erase_def)

theorem indexed_access_bounds_witness:
  "(5::nat) \<ge> length [ex0, ex1, ex2]
   \<and> experiment_list_getitem [ex0, ex1, ex2] 5 = (Inl IndexError, [ex0, ex1, ex2])
   \<and> experiment_list_setitem [ex0, ex1, ex2] 5 ex0 = (Inl IndexError, [ex0, ex1, ex2])
   \<and> experiment_list_delitem [ex0, ex1, ex2] 5 = (Inl IndexError, [ex0, ex1, ex2])
   \<and> (1::nat) < length [ex0, ex1, ex2]
   \<and> experiment_list_getitem [ex0, ex1, ex2] 1 = (Inr ex1, [ex0, ex1, ex2])
   \<and> experiment_list_setitem [ex0, ex1, ex2] 1 ex0 = (Inr (), [ex0, ex0, ex2])
   \<and> experiment_list_delitem [ex0, ex1, ex2] 1 = (Inr (), [ex0, ex2])"
  using indexed_access_bounds [where n = 5 and L = "[ex0, ex1, ex2]" and e = ex0]
    indexed_access_bounds [where n = 1 and L = "[ex0, ex1, ex2]" and e = ex0]
  by simp

section \<open>The dictionary hooks do not round-trip\<close>

text \<open>
  C9 fails as stated: exporting a list of one experiment and importing the result gives
  the empty list, not the list exported.
\<close>

theorem dict_roundtrip_counterexample:
  "from_dict (to_dict [ex0]) \<noteq> [ex0]"
  by (simp add: from_dict_def)

text \<open>
  C9, amended. For every list, importing what \<^verbatim>\<open>to_dict\<close> exported gives the empty
  list; the result is the exported list exactly when that list is empty.
\<close>

theorem dict_roundtrip_empty:
  "from_dict (to_dict L) = [] \<and> ((from_dict (to_dict L) = L) = (L = []))"
  by (auto simp: from_dict_def)

section \<open>Identity index\<close>

lemma filter_upt_single:
  "j < n \<Longrightarrow> filter (\<lambda>i. i = j) [0..<n] = [j]"
  by (induction n) (auto simp: less_Suc_eq)

lemma indices_single:
  assumes "j < length L" "slot k (L ! j) = R"
    and "\<forall>i<length L. i \<noteq> j \<longrightarrow> slot k (L ! i) \<noteq> R"
  shows "indices k L R = [j]"
proof -
  have "filter (\<lambda>i. slot k (L ! i) = R) [0..<length L] = filter (\<lambda>i. i = j) [0..<length L]"
    using assms by (intro filter_cong) auto
  with assms(1) show ?thesis by (simp add: indices_def filter_upt_single)
qed

text \<open>
  C1. For a typed kind \<open>k\<close> and an instance \<open>B\<close>: when position \<open>j\<close> of the list
  holds \<open>B\<close> in its \<open>k\<close> slot and no other position does, \<^verbatim>\<open>contains(B)\<close> is true
  and \<^verbatim>\<open>indices(B)\<close> is the one-element sequence \<open>[j]\<close>. Nothing is assumed of the
  values the handles point to, so the result is the same when another experiment holds
  a value-equal but different instance; the example has one.
\<close>

theorem identity_index_single:
  assumes "j < length L" "slot k (L ! j) = Some B"
    and "\<forall>i<length L. i \<noteq> j \<longrightarrow> slot k (L ! i) \<noteq> Some B"
  shows "contains k L (Some B) \<and> indices k L (Some B) = [j]"
proof -
  from assms(1,2) have "contains k L (Some B)"
    unfolding contains_def list_ex_iff using nth_mem by blast
  with indices_single [OF assms] show ?thesis by simp
qed

theorem identity_index_single_witness:
  "value_equal beam_store (beam ex0) (beam ex1) \<and> beam ex0 \<noteq> beam ex1
   \<and> contains Beam [ex0, ex1, ex2] (Some 2) \<and> indices Beam [ex0, ex1, ex2] (Some 2) = [1]"
proof -
  have h: "\<forall>i<length [ex0, ex1, ex2]. i \<noteq> 1 \<longrightarrow> slot Beam ([ex0, ex1, ex2] ! i) \<noteq> Some 2"
    by (simp add: less_Suc_eq ex0_def ex1_def ex2_def all_conj_distrib numeral_3_eq_3)
  show ?thesis
    using identity_index_single [of 1 "[ex0, ex1, ex2]" Beam 2, OF _ _ h]
    by (simp add: value_equal_def beam_store_def ex0_def ex1_def)
qed

section \<open>Replacement\<close>

lemma slot_set_slot: "slot k (set_slot k r e) = r"
  by (cases k) simp_all

lemma set_slot_same: "set_slot k (slot k e) e = e"
  by (cases k) simp_all

lemma indices_replace:
  "indices k (replace k L old new) R =
   filter (\<lambda>i. (if slot k (L ! i) = old then new else slot k (L ! i)) = R) [0..<length L]"
  unfolding indices_def replace_def
  by (auto intro!: filter_cong simp: slot_set_slot)

lemma indices_replace_new:
  "indices k (replace k L old new) new =
     filter (\<lambda>i. slot k (L ! i) = old \<or> slot k (L ! i) = new) [0..<length L]"
  unfolding indices_replace by (auto intro!: filter_cong)

lemma indices_replace_fresh:
  assumes "\<not> contains k L new"
  shows "indices k (replace k L old new) new = indices k L old"
proof -
  from assms have "\<forall>i<length L. slot k (L ! i) \<noteq> new"
    unfolding contains_def list_ex_iff using nth_mem by blast
  then have "filter (\<lambda>i. slot k (L ! i) = old \<or> slot k (L ! i) = new) [0..<length L]
      = filter (\<lambda>i. slot k (L ! i) = old) [0..<length L]"
    by (auto intro!: filter_cong)
  then show ?thesis
    by (simp add: indices_replace_new) (simp add: indices_def)
qed

lemma indices_replace_old:
  "old \<noteq> new \<Longrightarrow> indices k (replace k L old new) old = []"
  unfolding indices_replace by (auto simp: filter_empty_conv)

lemma replace_other:
  "i < length L \<Longrightarrow> slot k (L ! i) \<noteq> old \<Longrightarrow> replace k L old new ! i = L ! i"
  by (simp add: replace_def)

lemma replace_no_match:
  assumes "\<not> contains k L old"
  shows "replace k L old new = L"
proof -
  from assms have "\<forall>e\<in>set L. slot k e \<noteq> old"
    by (simp add: contains_def list_ex_iff)
  then show ?thesis
    unfolding replace_def by (induction L) simp_all
qed

text \<open>
  C2 fails as stated. When an experiment already holds the new instance, \<^verbatim>\<open>indices\<close>
  of the new instance after the call has more positions than \<^verbatim>\<open>indices\<close> of the old
  one had before; and when the old and the new instance are the same, \<^verbatim>\<open>indices\<close>
  of the old instance is not empty after the call.
\<close>

theorem replace_counterexample:
  "indices Beam (replace Beam [ex0, ex1] (Some 1) (Some 2)) (Some 2) \<noteq> indices Beam [ex0, ex1] (Some 1)
   \<and> indices Beam (replace Beam [ex0, ex1] (Some 1) (Some 1)) (Some 1) \<noteq> []"
  by (simp add: indices_def replace_def ex0_def ex1_def)

text \<open>
  C2, amended. After \<^verbatim>\<open>replace(old, new)\<close> for a typed kind, \<^verbatim>\<open>indices(new)\<close> is
  the ascending sequence of the positions that held the old or the new instance before
  the call, hence the former \<^verbatim>\<open>indices(old)\<close> when no experiment held the new
  instance; \<^verbatim>\<open>indices(old)\<close> is empty when the two instances differ; the size is
  unchanged; every experiment whose slot did not hold the old instance, value-equal to
  it or not, is unchanged; and when no experiment holds the old instance the list is
  unchanged.
\<close>

theorem replace_retargets:
  "indices k (replace k L old new) new =
     filter (\<lambda>i. slot k (L ! i) = old \<or> slot k (L ! i) = new) [0..<length L]
   \<and> (\<not> contains k L new \<longrightarrow> indices k (replace k L old new) new = indices k L old)
   \<and> (old \<noteq> new \<longrightarrow> indices k (replace k L old new) old = [])
   \<and> length (replace k L old new) = length L
   \<and> (\<forall>i<length L. slot k (L ! i) \<noteq> old \<longrightarrow> replace k L old new ! i = L ! i)
   \<and> (\<not> contains k L old \<longrightarrow> replace k L old new = L)"
  using indices_replace_new [of k L old new] indices_replace_fresh [of k L new old]
    indices_replace_old [of old new k L] replace_other [of _ L k old new]
    replace_no_match [of k L old new]
  by (simp add: replace_def)

theorem replace_retargets_witness:
  "\<not> contains Beam [ex0, ex1, ex0] (Some 7)
   \<and> Some 1 \<noteq> (Some 7 :: ref)
   \<and> indices Beam [ex0, ex1, ex0] (Some 1) = [0, 2]
   \<and> indices Beam (replace Beam [ex0, ex1, ex0] (Some 1) (Some 7)) (Some 7) = [0, 2]
   \<and> indices Beam (replace Beam [ex0, ex1, ex0] (Some 1) (Some 7)) (Some 1) = []
   \<and> value_equal beam_store (beam ex1) (Some 1) \<and> beam ex1 \<noteq> Some 1
   \<and> replace Beam [ex0, ex1, ex0] (Some 1) (Some 7) ! 1 = ex1
   \<and> \<not> contains Beam [ex0, ex1, ex0] (Some 9)
   \<and> replace Beam [ex0, ex1, ex0] (Some 9) (Some 7) = [ex0, ex1, ex0]"
  using replace_retargets [of Beam "[ex0, ex1, ex0]" "Some 1" "Some 7"]
    replace_retargets [of Beam "[ex0, ex1, ex0]" "Some 9" "Some 7"]
  by (simp add: contains_def indices_def replace_def value_equal_def beam_store_def
      ex0_def ex1_def)

section \<open>Filter query\<close>

lemma typed_match_or_else:
  "a = None \<or> b = None \<Longrightarrow> typed_match (or_else a b) s = (typed_match a s \<and> typed_match b s)"
  by (auto simp: typed_match_def or_else_def split: option.splits)

lemma generic_match_or_else:
  "a = None \<or> b = None \<Longrightarrow>
   generic_match eq (or_else a b) s = (generic_match eq a s \<and> generic_match eq b s)"
  by (auto simp: generic_match_def or_else_def split: option.splits)

lemma matches_both_args:
  assumes "disjoint_args F1 F2"
  shows "matches eq (both_args F1 F2) e = (matches eq F1 e \<and> matches eq F2 e)"
proof -
  from assms have d:
    "arg_beam F1 = None \<or> arg_beam F2 = None"
    "arg_detector F1 = None \<or> arg_detector F2 = None"
    "arg_goniometer F1 = None \<or> arg_goniometer F2 = None"
    "arg_scan F1 = None \<or> arg_scan F2 = None"
    "arg_crystal F1 = None \<or> arg_crystal F2 = None"
    "arg_profile F1 = None \<or> arg_profile F2 = None"
    "arg_imageset F1 = None \<or> arg_imageset F2 = None"
    by (simp_all add: disjoint_args_def)
  show ?thesis
    unfolding matches_def both_args_def
    by (simp add: typed_match_or_else [OF d(1)] typed_match_or_else [OF d(2)]
        typed_match_or_else [OF d(3)] typed_match_or_else [OF d(4)]
        typed_match_or_else [OF d(5)] generic_match_or_else [OF d(6)]
        generic_match_or_else [OF d(7)] conj_ac)
qed

lemma matches_no_filters: "matches eq no_filters e"
  by (simp add: matches_def no_filters_def typed_match_def generic_match_def)

lemma matches_typed_filter:
  "matches eq (typed_filter k R) e = (R = None \<or> slot k e = R)"
  by (cases k) (simp_all add: matches_def no_filters_def typed_match_def generic_match_def)

lemma where_query_both:
  assumes "disjoint_args F1 F2"
  shows "where_query eq L (both_args F1 F2) =
         filter (\<lambda>i. i \<in> set (where_query eq L F2)) (where_query eq L F1)"
  unfolding where_query_def filter_filter
  by (rule filter_cong) (auto simp: matches_both_args [OF assms])

lemma where_query_none: "where_query eq L no_filters = [0..<length L]"
  by (simp add: where_query_def matches_no_filters)

lemma where_query_typed:
  "R \<noteq> None \<Longrightarrow> where_query eq L (typed_filter k R) = indices k L R"
  by (auto simp: where_query_def matches_typed_filter indices_def intro!: filter_cong)

lemma matches_generic_filter:
  "matches eq (generic_filter g R) e = (R = None \<or> obj_equal eq (generic_slot g e) R)"
  by (cases g) (simp_all add: matches_def no_filters_def typed_match_def generic_match_def)

lemma where_query_generic:
  "where_query eq L (generic_filter g (Some b)) = indices_generic eq g L (Some b)"
  by (simp add: where_query_def matches_generic_filter indices_generic_def)

lemma obj_equal_Some:
  "obj_equal eq s (Some b) = (case s of None \<Rightarrow> False | Some a \<Rightarrow> eq a b)"
  by (cases s) simp_all

lemma indices_generic_contract:
  "indices_generic eq g L (Some b) =
   filter (\<lambda>i. case generic_slot g (L ! i) of None \<Rightarrow> False | Some a \<Rightarrow> eq a b)
     [0..<length L]"
  by (simp add: indices_generic_def obj_equal_Some)

text \<open>
  C5. With no filter supplied, \<^verbatim>\<open>where\<close> returns every position in ascending
  order. For two calls that supply different filters, the call that supplies the
  filters of both returns the positions of the first call that are also positions of
  the second. A call that supplies the filter of one typed kind returns what
  \<^verbatim>\<open>indices\<close> returns for that kind and handle, matching by identity. A call that
  supplies the filter of one generic slot returns the identity index of that slot and
  object: the positions whose slot holds an object that the equality contract relates
  to the filter.
\<close>

theorem where_conjunction:
  "where_query eq L no_filters = [0..<length L]
   \<and> (disjoint_args F1 F2 \<longrightarrow>
        where_query eq L (both_args F1 F2) =
        filter (\<lambda>i. i \<in> set (where_query eq L F2)) (where_query eq L F1))
   \<and> (R \<noteq> None \<longrightarrow> where_query eq L (typed_filter k R) = indices k L R)
   \<and> where_query eq L (generic_filter g (Some b)) = indices_generic eq g L (Some b)
   \<and> indices_generic eq g L (Some b) =
       filter (\<lambda>i. case generic_slot g (L ! i) of None \<Rightarrow> False | Some a \<Rightarrow> eq a b)
         [0..<length L]"
  using where_query_both [of F1 F2 eq L] where_query_none [of eq L]
    where_query_typed [of R eq L k] where_query_generic [of eq L g b]
    indices_generic_contract [of eq g L b]
  by blast

theorem where_conjunction_witness:
  "disjoint_args (typed_filter Detector (Some 10)) (typed_filter Beam (Some 1))
   \<and> where_query (=) [ex0, ex1, ex2, ex0] (typed_filter Detector (Some 10)) = [0, 2, 3]
   \<and> where_query (=) [ex0, ex1, ex2, ex0] (typed_filter Beam (Some 1)) = [0, 3]
   \<and> where_query (=) [ex0, ex1, ex2, ex0]
        (both_args (typed_filter Detector (Some 10)) (typed_filter Beam (Some 1))) = [0, 3]
   \<and> indices Beam [ex0, ex1, ex2, ex0] (Some 1) = [0, 3]
   \<and> where_query (=) [ex0, ex1, ex2, ex0] no_filters = [0, 1, 2, 3]
   \<and> disjoint_args (typed_filter Detector (Some 10)) (generic_filter Imageset (Some 100))
   \<and> where_query (=) [ex0, ex1, ex2, ex0] (generic_filter Imageset (Some 100)) = [0, 1, 3]
   \<and> where_query (=) [ex0, ex1, ex2, ex0] (generic_filter Imageset (Some 200)) = []
   \<and> where_query (=) [ex0, ex1, ex2, ex0] (generic_filter Profile (Some 100)) = []
   \<and> where_query (=) [ex0, ex1, ex2, ex0]
        (both_args (typed_filter Detector (Some 10)) (generic_filter Imageset (Some 100)))
       = [0, 3]
   \<and> where_query (\<lambda>a b. a mod 100 = b mod 100) [ex0, ex1, ex2, ex0]
        (generic_filter Imageset (Some 200)) = [0, 1, 3]"
  using where_conjunction [where eq = "(=)" and L = "[ex0, ex1, ex2, ex0]"
      and ?F1.0 = "typed_filter Detector (Some 10)" and ?F2.0 = "typed_filter Beam (Some 1)"
      and R = "Some 1" and k = Beam and g = Imageset and b = 100]
    where_conjunction [where eq = "(=)" and L = "[ex0, ex1, ex2, ex0]"
      and ?F1.0 = "typed_filter Detector (Some 10)"
      and ?F2.0 = "generic_filter Imageset (Some 100)"
      and R = "Some 10" and k = Detector and g = Imageset and b = 200]
    where_conjunction [where eq = "(=)" and L = "[ex0, ex1, ex2, ex0]"
      and ?F1.0 = "typed_filter Detector (Some 10)" and ?F2.0 = "typed_filter Beam (Some 1)"
      and R = "Some 1" and k = Beam and g = Profile and b = 100]
    where_conjunction [where eq = "\<lambda>a b. a mod 100 = b mod 100"
      and L = "[ex0, ex1, ex2, ex0]"
      and ?F1.0 = "typed_filter Detector (Some 10)" and ?F2.0 = "typed_filter Beam (Some 1)"
      and R = "Some 1" and k = Beam and g = Imageset and b = 200]
  by (simp add: disjoint_args_def no_filters_def indices_def ex0_def ex1_def ex2_def)

section \<open>Consistency\<close>

lemma group_consistent_detector:
  assumes "group_consistent policy g" "a \<in> set g" "b \<in> set g"
  shows "detector a = detector b"
proof (cases g)
  case Nil
  with assms show ?thesis by simp
next
  case (Cons e es)
  have "detector x = detector e" if "x \<in> set g" for x
    using that assms(1) Cons by (auto simp: list_all_iff agree_def)
  with assms show ?thesis by simp
qed

text \<open>
  C6. When two experiments of the list share an imageset and hold different detectors,
  the call of \<^verbatim>\<open>is_consistent\<close> returns the boolean false, whatever the policy for
  the other kinds; it returns a value and raises no failure.
\<close>

theorem inconsistent_detectors:
  assumes "i < length L" "j < length L"
    and "imageset (L ! i) = imageset (L ! j)" "imageset (L ! i) \<noteq> None"
    and "detector (L ! i) \<noteq> detector (L ! j)"
  shows "fst (is_consistent_call policy L) = Inr False"
proof -
  let ?key = "imageset (L ! i)"
  from assms(1,4) have key: "?key \<in> set (imageset_keys L)"
    by (auto simp: imageset_keys_def)
  from assms(1,2,3) have mem: "L ! i \<in> set (group L ?key)" "L ! j \<in> set (group L ?key)"
    by (simp_all add: group_def)
  from group_consistent_detector [OF _ mem] assms(5)
  have "\<not> group_consistent policy (group L ?key)" by blast
  with key have "\<not> is_consistent policy L"
    by (auto simp: is_consistent_def list_all_iff)
  then show ?thesis by (simp add: is_consistent_call_def)
qed

theorem inconsistent_detectors_witness:
  "imageset ex0 = imageset ex1 \<and> imageset ex0 \<noteq> None \<and> detector ex0 \<noteq> detector ex1
   \<and> fst (is_consistent_call [] [ex0, ex1]) = Inr False"
  using inconsistent_detectors [of 0 "[ex0, ex1]" 1 "[]"]
  by (simp add: ex0_def ex1_def)

section \<open>Slicing\<close>

lemma getitem_slice_loop_unfold:
  "getitem_slice_loop L as i acc =
     (if loop_guard L as i then
        getitem_slice_loop L as (i + step as) (append_el acc (L ! unat i))
      else Some acc)"
  by (subst getitem_slice_loop.simps) (simp add: loop_guard_def)

lemma loop_takeWhile:
  "\<exists>x\<in>set (counter_values n i (step as)). \<not> loop_guard L as x \<Longrightarrow>
   getitem_slice_loop L as i acc =
     Some (acc @ map (\<lambda>j. L ! unat j) (takeWhile (loop_guard L as) (counter_values n i (step as))))"
proof (induction n arbitrary: i acc)
  case 0
  then show ?case by simp
next
  case (Suc n)
  show ?case
  proof (cases "loop_guard L as i")
    case True
    with Suc.prems have ex: "\<exists>x\<in>set (counter_values n (i + step as) (step as)). \<not> loop_guard L as x"
      by auto
    from True have "getitem_slice_loop L as i acc =
        getitem_slice_loop L as (i + step as) (append_el acc (L ! unat i))"
      by (subst getitem_slice_loop_unfold) simp
    also note Suc.IH [OF ex]
    finally show ?thesis using True by (simp add: append_el_def)
  next
    case False
    then show ?thesis
      by (subst getitem_slice_loop_unfold) simp
  qed
qed

lemma unat_add_nowrap:
  fixes i d :: "64 word"
  assumes "unat i + unat d < 2 ^ 64"
  shows "unat (i + d) = unat i + unat d"
  using assms by (simp add: unat_word_ariths)

lemma unat_add_wrap:
  fixes i d :: "64 word"
  assumes "2 ^ 64 \<le> unat i + unat d"
  shows "unat (i + d) + 2 ^ 64 = unat i + unat d"
proof -
  have "unat i < 2 ^ 64" "unat d < 2 ^ 64"
    using unsigned_less [of i] unsigned_less [of d] by simp_all
  then have "unat i + unat d - 2 ^ 64 < 2 ^ 64" by simp
  then have "(unat i + unat d) mod 2 ^ 64 = unat i + unat d - 2 ^ 64"
    using assms by (metis le_mod_geq mod_less)
  with assms show ?thesis by (simp add: unat_word_ariths)
qed

lemma exit_forward:
  fixes i :: "64 word"
  assumes "0 < unat (step as)" "unat (step as) \<le> 2 ^ 63" "length L < 2 ^ 63"
  shows "length L \<le> unat i + n \<Longrightarrow> \<exists>x\<in>set (counter_values (Suc n) i (step as)). \<not> loop_guard L as x"
proof (induction n arbitrary: i)
  case 0
  then show ?case by (simp add: loop_guard_def)
next
  case (Suc n)
  show ?case
  proof (cases "loop_guard L as i")
    case True
    then have "unat i < 2 ^ 63" using assms(3) by (simp add: loop_guard_def)
    with assms(2) have "unat (i + step as) = unat i + unat (step as)"
      by (intro unat_add_nowrap) simp
    with Suc.prems assms(1) have "length L \<le> unat (i + step as) + n" by simp
    from Suc.IH [OF this] show ?thesis by simp
  next
    case False
    then show ?thesis by simp
  qed
qed

lemma exit_backward:
  fixes i :: "64 word"
  assumes "2 ^ 63 < unat (step as)" "length L < 2 ^ 63"
  shows "unat i \<le> n \<Longrightarrow> \<exists>x\<in>set (counter_values (Suc (Suc n)) i (step as)). \<not> loop_guard L as x"
proof (induction n arbitrary: i)
  case 0
  then have "unat (i + step as) = unat (step as)" by (simp add: unat_eq_zero)
  with assms have "\<not> loop_guard L as (i + step as)" by (simp add: loop_guard_def)
  then show ?case by simp
next
  case (Suc n)
  show ?case
  proof (cases "unat i + unat (step as) < 2 ^ 64")
    case True
    then have "unat (i + step as) = unat i + unat (step as)" by (rule unat_add_nowrap)
    with assms have "\<not> loop_guard L as (i + step as)" by (simp add: loop_guard_def)
    then show ?thesis by simp
  next
    case False
    then have "unat (i + step as) + 2 ^ 64 = unat i + unat (step as)"
      by (intro unat_add_wrap) simp
    moreover have "unat (step as) < 2 ^ 64" using unsigned_less [of "step as"] by simp
    ultimately have "unat (i + step as) < unat i" by simp
    with Suc.prems have "unat (i + step as) \<le> n" by simp
    from Suc.IH [OF this] show ?thesis by simp
  qed
qed

lemma exit_bound:
  assumes "step as \<noteq> 0" "length L < 2 ^ 63" "length L < N"
  shows "\<exists>x\<in>set (counter_values N i (step as)). \<not> loop_guard L as x"
proof -
  from assms(3) obtain m where N: "N = Suc m" by (cases N) auto
  from assms(1) have pos: "0 < unat (step as)" by (simp add: unat_gt_0)
  show ?thesis
  proof (cases "unat (step as) \<le> 2 ^ 63")
    case True
    from assms(3) N have "length L \<le> unat i + m" by simp
    from exit_forward [OF pos True assms(2) this] N show ?thesis by simp
  next
    case big: False
    show ?thesis
    proof (cases "loop_guard L as i")
      case True
      then have "unat i < length L" by (simp add: loop_guard_def)
      with assms(3) N obtain m' where m: "m = Suc m'" and le: "unat i \<le> m'"
        by (cases m) auto
      from big have "2 ^ 63 < unat (step as)" by simp
      from exit_backward [OF this assms(2) le] N m show ?thesis by simp
    next
      case False
      with N show ?thesis by auto
    qed
  qed
qed

lemma getitem_slice_counter_run:
  assumes "step as \<noteq> 0" "length L < 2 ^ 63" "length L < N"
  shows "experiment_list_getitem_slice L as = Some (map (\<lambda>i. L ! unat i) (counter_run N L as))"
  using loop_takeWhile [OF exit_bound [OF assms], of "start as" "[]"]
  by (simp add: experiment_list_getitem_slice_def counter_run_def)

text \<open>
  With a zero step and a start inside the list and below the stop, the loop never
  leaves its first position: the call does not return.
\<close>

lemma zero_step_no_result:
  "getitem_slice_loop L as i acc = Some r \<Longrightarrow> \<not> (step as = 0 \<and> loop_guard L as i)"
proof (rule getitem_slice_loop.raw_induct
    [where P = "\<lambda>L as i acc r. \<not> (step as = 0 \<and> loop_guard L as i)"], goal_cases)
  case (1 f L as i acc r)
  show ?case
  proof
    assume h: "step as = 0 \<and> loop_guard L as i"
    with 1(3) have "f L as i (append_el acc (L ! unat i)) = Some r"
      by (simp add: loop_guard_def)
    from 1(2) [OF this] h show False by simp
  qed
qed

lemma zero_step_diverges:
  "step as = 0 \<Longrightarrow> loop_guard L as (start as) \<Longrightarrow> experiment_list_getitem_slice L as = None"
  using zero_step_no_result [of L as "start as" "[]"]
  by (cases "experiment_list_getitem_slice L as") (auto simp: experiment_list_getitem_slice_def)

text \<open>
  While the step is at most \<open>2 ^ 63\<close> and the list shorter than that, the counter does
  not wrap before the loop ends, and its values are the positions of the integer
  iteration.
\<close>

lemma counter_values_no_wrap:
  assumes "unat (step as) \<le> 2 ^ 63" "length L < 2 ^ 63"
  shows "map uint (takeWhile (loop_guard L as) (counter_values n i (step as))) =
         takeWhile (\<lambda>j. j < uint (stop as) \<and> j < int (length L))
           (iteration n (uint i) (uint (step as)))"
proof (induction n arbitrary: i)
  case 0
  show ?case by simp
next
  case (Suc n)
  have "(unat i < length L) = (uint i < int (length L))"
    by (metis of_nat_less_iff uint_nat)
  then have g: "loop_guard L as i = (uint i < uint (stop as) \<and> uint i < int (length L))"
    by (simp only: loop_guard_def word_less_def)
  show ?case
  proof (cases "loop_guard L as i")
    case True
    then have "unat i < 2 ^ 63" using assms(2) by (simp add: loop_guard_def)
    with assms(1) have "unat (i + step as) = unat i + unat (step as)"
      by (intro unat_add_nowrap) simp
    then have "uint (i + step as) = uint i + uint (step as)"
      unfolding uint_nat by simp
    with True g Suc.IH [of "i + step as"] show ?thesis by simp
  next
    case False
    with g show ?thesis by simp
  qed
qed

lemma iteration_nonneg:
  "0 \<le> i \<Longrightarrow> 0 \<le> d \<Longrightarrow> j \<in> set (iteration n i d) \<Longrightarrow> 0 \<le> j"
proof (induction n arbitrary: i)
  case 0
  then show ?case by simp
next
  case (Suc n)
  from Suc.prems(1,2) have "0 \<le> i + d" by simp
  with Suc.prems Suc.IH [of "i + d"] show ?case by auto
qed

text \<open>
  C4 fails as stated. With a zero step the call does not return a list. With a step
  and a stop of \<open>2 ^ 64 - 1\<close>, which is \<open>-1\<close> when read as signed, the call returns
  the three experiments in reverse order, while the iteration over the integers visits
  position 2 only when the bounds are read as unsigned and no position when they are
  read as signed.
\<close>

theorem getitem_slice_counterexample:
  "experiment_list_getitem_slice [ex0] \<lparr>start = 0, stop = 1, step = 0\<rparr> = None
   \<and> experiment_list_getitem_slice [ex0, ex1, ex2]
         \<lparr>start = 2, stop = 18446744073709551615, step = 18446744073709551615\<rparr>
       = Some [ex2, ex1, ex0]
   \<and> spec_slice (Suc (Suc (Suc (Suc 0)))) [ex0, ex1, ex2]
         2 18446744073709551615 18446744073709551615 = [ex2]
   \<and> spec_slice (Suc (Suc (Suc (Suc 0)))) [ex0, ex1, ex2] 2 (- 1) (- 1) = []"
  using zero_step_diverges [of "\<lparr>start = 0, stop = 1, step = 0\<rparr>" "[ex0]"]
    getitem_slice_counter_run
      [of "\<lparr>start = 2, stop = 18446744073709551615, step = 18446744073709551615\<rparr>"
      "[ex0, ex1, ex2]" "Suc (Suc (Suc (Suc 0)))"]
  by (simp add: counter_run_def loop_guard_def spec_slice_def spec_visited_def)

text \<open>
  C4, amended. For every list shorter than \<open>2 ^ 63\<close> and every adapted slice whose
  step, read as an unsigned 64-bit value, is between 1 and \<open>2 ^ 63\<close>, whatever its
  start and stop: the call returns a list and raises nothing; its elements are the
  experiments at the positions \<open>start\<close>, \<open>start + step\<close>, ... of the iteration over
  the integers, visited while the position is below \<open>stop\<close> and below the size, in
  that order, the bounds read as unsigned; and every visited position is inside the
  list. Any number \<open>N\<close> of positions above the size is enough to find where the run
  ends.
\<close>

theorem getitem_slice_forward:
  assumes "step as \<noteq> 0" "unat (step as) \<le> 2 ^ 63" "length L < 2 ^ 63" "length L < N"
  shows "experiment_list_getitem_slice L as =
           Some (spec_slice N L (uint (start as)) (uint (stop as)) (uint (step as)))
         \<and> (\<forall>j\<in>set (spec_visited N (length L) (uint (start as)) (uint (stop as))
                 (uint (step as))). 0 \<le> j \<and> j < int (length L))"
proof -
  have "map (\<lambda>i. L ! unat i) (counter_run N L as) =
        map (\<lambda>j. L ! nat j) (map uint (counter_run N L as))"
    by simp
  also have "map uint (counter_run N L as) =
      spec_visited N (length L) (uint (start as)) (uint (stop as)) (uint (step as))"
    unfolding counter_run_def spec_visited_def
    by (rule counter_values_no_wrap [OF assms(2,3)])
  finally have "experiment_list_getitem_slice L as =
      Some (spec_slice N L (uint (start as)) (uint (stop as)) (uint (step as)))"
    using getitem_slice_counter_run [OF assms(1,3,4)] by (simp add: spec_slice_def)
  moreover have "0 \<le> j \<and> j < int (length L)"
    if "j \<in> set (spec_visited N (length L) (uint (start as)) (uint (stop as))
          (uint (step as)))" for j
  proof -
    from that have "j < int (length L)"
      unfolding spec_visited_def by (auto dest: set_takeWhileD)
    moreover from that have "j \<in> set (iteration N (uint (start as)) (uint (step as)))"
      unfolding spec_visited_def by (auto dest: set_takeWhileD)
    then have "0 \<le> j" by (rule iteration_nonneg [rotated 2]) simp_all
    ultimately show ?thesis by simp
  qed
  ultimately show ?thesis by blast
qed

theorem getitem_slice_forward_witness:
  "(1 :: 64 word) \<noteq> 0 \<and> unat (1 :: 64 word) \<le> 2 ^ 63 \<and> length [ex0, ex1, ex2] < 2 ^ 63
   \<and> experiment_list_getitem_slice [ex0, ex1, ex2] \<lparr>start = 1, stop = 10, step = 1\<rparr>
       = Some [ex1, ex2]
   \<and> experiment_list_getitem_slice [ex0, ex1, ex2] \<lparr>start = 0, stop = 3, step = 2\<rparr>
       = Some [ex0, ex2]
   \<and> experiment_list_getitem_slice [ex0, ex1, ex2]
         \<lparr>start = 7, stop = 18446744073709551615, step = 2\<rparr> = Some []"
  using getitem_slice_forward [of "\<lparr>start = 1, stop = 10, step = 1\<rparr>" "[ex0, ex1, ex2]"
      "Suc (Suc (Suc (Suc 0)))"]
    getitem_slice_forward [of "\<lparr>start = 0, stop = 3, step = 2\<rparr>" "[ex0, ex1, ex2]"
      "Suc (Suc (Suc (Suc 0)))"]
    getitem_slice_forward [of "\<lparr>start = 7, stop = 18446744073709551615, step = 2\<rparr>"
      "[ex0, ex1, ex2]" "Suc (Suc (Suc (Suc 0)))"]
  by (simp add: spec_slice_def spec_visited_def)

end
